theory Spec2Isabelle
  imports Main
begin

section \<open>Values, records and the store\<close>

text \<open>
  Field values are the primitive JavaScript values. Numbers are restricted to integers
  (there is no NaN), so that the strict equality \<open>===\<close> of the source is equality of
  \<open>jsval\<close>.
\<close>

datatype jsval = JUndefined | JNull | JBool bool | JNum int | JStr string

text \<open>
  A stored record is a JavaScript object. \<open>oid\<close> is the identity of the object (two
  values denote the same object exactly when their \<open>oid\<close> agree), \<open>isModel\<close> says
  whether it is an instance of the data model class, \<open>checksum\<close> and \<open>idAttribute\<close>
  are the properties of these names, and \<open>props\<close> lists the own data properties.
\<close>

record jsrec =
  oid :: nat
  isModel :: bool
  checksum :: jsval
  idAttribute :: string
  props :: "(string \<times> jsval) list"

definition hasOwnProperty :: "jsrec \<Rightarrow> string \<Rightarrow> bool" where
  "hasOwnProperty r f = (f \<in> set (map fst (props r)))"

text \<open>\<open>getv r f\<close> is the property read \<open>r[f]\<close>: \<open>undefined\<close> when the property is absent.\<close>

definition getv :: "jsrec \<Rightarrow> string \<Rightarrow> jsval" where
  "getv r f = (case map_of (props r) f of None \<Rightarrow> JUndefined | Some v \<Rightarrow> v)"

text \<open>A filter is a predicate function; \<open>fid\<close> is the identity of the function object.\<close>

record jsfilter =
  fid :: nat
  accepts :: "jsrec \<Rightarrow> bool"

datatype payload = PNone | PRec jsrec | PFilter nat | PField string

datatype error = InvalidRecordPayload | DuplicateRecord | RecordNotFound | TypeError

text \<open>
  The state of a \<open>Store\<close>. A field \<open>u_x\<close> is the private property \<open>_x\<close> of the source.
  \<open>u_index\<close> is the index object: its keys in order, each with its array of buckets;
  a bucket is the array \<open>[value, position, position, ...]\<close>.
  \<open>emitted\<close> is the sequence of events handed to \<open>emit\<close> so far.
\<close>

record store =
  u_data :: "jsrec list"
  u_filters :: "jsfilter list"
  u_index :: "(string \<times> jsval list list) list"
  u_created :: "jsrec list"
  u_deleted :: "jsrec list"
  u_loading :: bool
  allowDuplicates :: bool
  errorOnDuplicate :: bool
  emitted :: "(string \<times> payload) list"

definition emit :: "string \<Rightarrow> payload \<Rightarrow> store \<Rightarrow> store" where
  "emit evt p s = s\<lparr>emitted := emitted s @ [(evt, p)]\<rparr>"

text \<open>\<open>NGN.coalesce(x, d)\<close> for an optional boolean argument.\<close>

definition coalesce :: "bool option \<Rightarrow> bool \<Rightarrow> bool" where
  "coalesce x d = (case x of None \<Rightarrow> d | Some b \<Rightarrow> b)"

section \<open>Array helpers\<close>

text \<open>\<open>Array.prototype.findIndex\<close>: the first offset whose element satisfies \<open>p\<close>, or -1.\<close>

fun findIndex :: "('a \<Rightarrow> bool) \<Rightarrow> 'a list \<Rightarrow> int" where
  "findIndex p [] = -1"
| "findIndex p (x # xs) =
     (if p x then 0 else (let i = findIndex p xs in if i < 0 then -1 else i + 1))"

text \<open>\<open>indexOf\<close> on an array of objects compares by identity.\<close>

definition indexOf_rec :: "jsrec list \<Rightarrow> jsrec \<Rightarrow> int" where
  "indexOf_rec xs r = findIndex (\<lambda>x. oid x = oid r) xs"

definition indexOf_filter :: "jsfilter list \<Rightarrow> jsfilter \<Rightarrow> int" where
  "indexOf_filter xs f = findIndex (\<lambda>x. fid x = fid f) xs"

definition indexOf_val :: "jsval list \<Rightarrow> jsval \<Rightarrow> int" where
  "indexOf_val xs v = findIndex (\<lambda>x. x = v) xs"

text \<open>
  \<open>xs.splice(start, 1)\<close>: a negative \<open>start\<close> counts from the end. The result is the
  array of removed elements and the array that remains.
\<close>

definition splice1 :: "'a list \<Rightarrow> int \<Rightarrow> 'a list \<times> 'a list" where
  "splice1 xs start =
     (let len = int (length xs);
          k = nat (if start < 0 then max (len + start) 0 else min start len)
      in (take 1 (drop k xs), take k xs @ drop (Suc k) xs))"

text \<open>\<open>b[0]\<close> on a bucket: \<open>undefined\<close> when the bucket is empty.\<close>

definition first_cell :: "jsval list \<Rightarrow> jsval" where
  "first_cell b = (case b of [] \<Rightarrow> JUndefined | x # _ \<Rightarrow> x)"

section \<open>Index maintenance\<close>

text \<open>
  The body of \<open>applyIndices\<close> for one field: scan the buckets for one whose first cell is
  the record's value and push the position onto it; push a new bucket otherwise.
\<close>

fun apply_bucket :: "jsval list list \<Rightarrow> jsval \<Rightarrow> int \<Rightarrow> jsval list list" where
  "apply_bucket [] v num = [[v, JNum num]]"
| "apply_bucket (b # bs) v num =
     (if first_cell b = v then (b @ [JNum num]) # bs else b # apply_bucket bs v num)"

definition applyIndices :: "store \<Rightarrow> jsrec \<Rightarrow> int \<Rightarrow> store" where
  "applyIndices s record num =
     s\<lparr>u_index := map (\<lambda>(field, values).
          (field, if hasOwnProperty record field
                  then apply_bucket values (getv record field) num else values))
        (u_index s)\<rparr>"

text \<open>
  An element of an array is a primitive value or an array. \<open>x === num\<close> for a number
  \<open>num\<close>: an array is never strictly equal to a number.
\<close>

datatype jsany = Prim jsval | Arr "jsval list"

fun strict_eq_num :: "jsany \<Rightarrow> int \<Rightarrow> bool" where
  "strict_eq_num (Prim v) num = (v = JNum num)"
| "strict_eq_num (Arr b) num = False"

text \<open>
  \<open>unapplyIndices\<close> searches, for every field, the array of buckets itself for the
  number \<open>num\<close> (\<open>me._index[field].indexOf(num)\<close>); the elements of that array are
  the buckets, which are arrays.
\<close>

definition unapplyIndices :: "store \<Rightarrow> int \<Rightarrow> store" where
  "unapplyIndices s num =
     s\<lparr>u_index := map (\<lambda>(field, values).
          (let i = findIndex (\<lambda>b. strict_eq_num (Arr b) num) values
           in (field, if i \<ge> 0 then snd (splice1 values i) else values)))
        (u_index s)\<rparr>"

definition clearIndices :: "store \<Rightarrow> store" where
  "clearIndices s = s\<lparr>u_index := map (\<lambda>(key, values). (key, [])) (u_index s)\<rparr>"

definition reindex :: "store \<Rightarrow> store" where
  "reindex s =
     fold (\<lambda>(i, r) t. applyIndices t r (int i)) (enumerate 0 (u_data s)) (clearIndices s)"

text \<open>The callback of the \<open>filter\<close> call in \<open>getIndices\<close>.\<close>

definition hit :: "jsval \<Rightarrow> jsval list \<Rightarrow> bool" where
  "hit v dataarray = (length dataarray > 0 \<and> first_cell dataarray = v)"

text \<open>\<open>shift()\<close> on the first bucket that satisfies \<open>p\<close>.\<close>

fun shift_first :: "(jsval list \<Rightarrow> bool) \<Rightarrow> jsval list list \<Rightarrow> jsval list list" where
  "shift_first p [] = []"
| "shift_first p (b # bs) = (if p b then tl b # bs else b # shift_first p bs)"

definition set_entry ::
  "string \<Rightarrow> jsval list list \<Rightarrow> (string \<times> jsval list list) list
     \<Rightarrow> (string \<times> jsval list list) list" where
  "set_entry field values idx = map (\<lambda>(k, old). (k, if k = field then values else old)) idx"

text \<open>
  \<open>getIndices\<close> returns \<open>null\<close> (\<open>None\<close>) for a field without index. When exactly one
  bucket starts with the value it shifts the value off that bucket, in the index itself,
  and returns the bucket.
\<close>

definition getIndices :: "store \<Rightarrow> string \<Rightarrow> jsval \<Rightarrow> jsval list option \<times> store" where
  "getIndices s field v =
     (case map_of (u_index s) field of
        None \<Rightarrow> (None, s)
      | Some values \<Rightarrow>
          (let indexes = filter (hit v) values
           in if length indexes = 1
              then (Some (tl (hd indexes)),
                    s\<lparr>u_index := set_entry field (shift_first (hit v) values) (u_index s)\<rparr>)
              else (Some [], s)))"

section \<open>Strings\<close>

definition truthy :: "jsval \<Rightarrow> bool" where
  "truthy v = (case v of JUndefined \<Rightarrow> False | JNull \<Rightarrow> False | JBool b \<Rightarrow> b
     | JNum n \<Rightarrow> n \<noteq> 0 | JStr str \<Rightarrow> str \<noteq> [])"

definition is_space :: "char \<Rightarrow> bool" where
  "is_space c = (c \<in> set [CHR '' '', CHR 0x09, CHR 0x0A, CHR 0x0B, CHR 0x0C, CHR 0x0D])"

definition trim :: "string \<Rightarrow> string" where
  "trim str = rev (dropWhile is_space (rev (dropWhile is_space str)))"

definition toLowerCase :: "string \<Rightarrow> string" where
  "toLowerCase str =
     map (\<lambda>c. let n = (of_char c :: nat) in if 65 \<le> n \<and> n \<le> 90 then char_of (n + 32) else c) str"

fun show_nat :: "nat \<Rightarrow> string" where
  "show_nat n =
     (if n < 10 then [char_of (48 + n)] else show_nat (n div 10) @ [char_of (48 + n mod 10)])"

declare show_nat.simps [simp del]

text \<open>\<open>toString()\<close> of a primitive value.\<close>

definition js_toString :: "jsval \<Rightarrow> string" where
  "js_toString v = (case v of JStr str \<Rightarrow> str
     | JNum n \<Rightarrow> (if n < 0 then CHR ''-'' # show_nat (nat (- n)) else show_nat (nat n))
     | JBool b \<Rightarrow> (if b then ''true'' else ''false'')
     | JNull \<Rightarrow> ''null'' | JUndefined \<Rightarrow> ''undefined'')"

text \<open>\<open>v || ''\<close>.\<close>

definition or_empty :: "jsval \<Rightarrow> jsval" where
  "or_empty v = (if truthy v then v else JStr [])"

section \<open>Adding and removing records\<close>

text \<open>
  What \<open>add\<close> is called with: an instance of the entity class, which is stored itself; any
  other object (or the JSON text of one), given here as the record that is stored for it
  (the object itself or, when the store has a model, the instance that the model
  constructor, which is not part of the store, builds from it); or a value that is no
  object.
\<close>

datatype input = Entity jsrec | Plain jsrec | NonObject

definition isDuplicate :: "store \<Rightarrow> jsrec \<Rightarrow> bool" where
  "isDuplicate s record =
     (if indexOf_rec (u_data s) record \<ge> 0 then False
      else length (filter (\<lambda>rec. checksum rec = checksum record) (u_data s)) > 0)"

text \<open>
  Every operation returns the store after the call together with its result; a thrown
  error is \<open>Inl\<close>. Subscribing to the record's own change events (\<open>listen\<close>) and the
  back reference \<open>_store\<close> do not touch the store and are left out.
\<close>

definition add_rec :: "store \<Rightarrow> jsrec \<Rightarrow> bool option \<Rightarrow> (error + unit) \<times> store" where
  "add_rec s rec suppressEvent =
     (let dupe = isDuplicate s rec;
          s1 = (if dupe then emit ''record.duplicate'' (PRec rec) s else s)
      in if dupe \<and> \<not> allowDuplicates s1
         then (if errorOnDuplicate s1 then (Inl DuplicateRecord, s1) else (Inr (), s1))
         else
           (let s2 = applyIndices s1 rec (int (length (u_data s1)));
                s3 = s2\<lparr>u_data := u_data s2 @ [rec]\<rparr>;
                s4 = (if \<not> u_loading s3 \<and> indexOf_rec (u_created s3) rec < 0
                      then s3\<lparr>u_created := u_created s3 @ [rec]\<rparr> else s3)
            in (Inr (), if \<not> coalesce suppressEvent False
                        then emit ''record.create'' (PRec rec) s4 else s4)))"

definition add :: "store \<Rightarrow> input \<Rightarrow> bool option \<Rightarrow> (error + unit) \<times> store" where
  "add s data suppressEvent =
     (case data of
        NonObject \<Rightarrow> (Inl InvalidRecordPayload, s)
      | Plain rec \<Rightarrow> add_rec s rec suppressEvent
      | Entity rec \<Rightarrow> add_rec s rec suppressEvent)"

text \<open>\<open>data.forEach(function (rec) { me.add(rec, true) })\<close>: a throw ends the loop.\<close>

fun add_each :: "store \<Rightarrow> input list \<Rightarrow> (error + unit) \<times> store" where
  "add_each s [] = (Inr (), s)"
| "add_each s (d # ds) =
     (case add s d (Some True) of
        (Inl e, s1) \<Rightarrow> (Inl e, s1)
      | (Inr u, s1) \<Rightarrow> add_each s1 ds)"

definition bulk :: "store \<Rightarrow> string \<Rightarrow> input list \<Rightarrow> (error + unit) \<times> store" where
  "bulk s event data =
     (case add_each (s\<lparr>u_loading := True\<rparr>) data of
        (Inl e, s1) \<Rightarrow> (Inl e, s1)
      | (Inr u, s1) \<Rightarrow>
          (Inr (), emit (if event = [] then ''load'' else event) PNone
             (s1\<lparr>u_loading := False, u_deleted := [], u_created := []\<rparr>)))"


definition clear :: "store \<Rightarrow> store" where
  "clear s = emit ''clear'' PNone (clearIndices (s\<lparr>u_data := []\<rparr>))"

definition reload :: "store \<Rightarrow> input list \<Rightarrow> (error + unit) \<times> store" where
  "reload s array = bulk (clear s) ''reload'' array"

definition indexOf :: "store \<Rightarrow> jsrec \<Rightarrow> int" where
  "indexOf s record =
     (if \<not> isModel record \<and> \<not> truthy (checksum record) then -1
      else findIndex (\<lambda>el. checksum el = checksum record) (u_data s))"

definition contains :: "store \<Rightarrow> jsrec \<Rightarrow> bool" where
  "contains s record = (indexOf s record \<ge> 0)"

text \<open>
  What \<open>remove\<close> is called with: a number, or an object. For an object that has no
  checksum and is no model instance the source builds a transient model from it; the
  second component is the checksum of that transient model.
\<close>

datatype ident = ByNum int | ByObj jsrec jsval

definition resolve :: "store \<Rightarrow> ident \<Rightarrow> int" where
  "resolve s data =
     (case data of
        ByNum n \<Rightarrow> n
      | ByObj r c \<Rightarrow>
          (if truthy (checksum r) \<or> isModel r then indexOf s r
           else findIndex (\<lambda>el. checksum el = c) (u_data s)))"

definition track_removed :: "store \<Rightarrow> jsrec \<Rightarrow> store" where
  "track_removed s removed =
     (if \<not> u_loading s
      then (let i = indexOf_rec (u_created s) removed
            in if i \<ge> 0 then s\<lparr>u_created := snd (splice1 (u_created s) i)\<rparr>
               else if indexOf_rec (u_deleted s) removed < 0
                    then s\<lparr>u_deleted := u_deleted s @ [removed]\<rparr>
                    else s)
      else s)"

definition remove :: "store \<Rightarrow> ident \<Rightarrow> bool option \<Rightarrow> (error + unit) \<times> store" where
  "remove s data suppressEvents =
     (let num = resolve s data
      in if num < 0 then (Inl RecordNotFound, s)
         else
           (let (removed, rest) = splice1 (u_data s) num;
                s1 = s\<lparr>u_data := rest\<rparr>
            in if length removed > 0
               then (let r = hd removed;
                         s2 = unapplyIndices s1 num;
                         s3 = track_removed s2 r
                     in (Inr (), if \<not> coalesce suppressEvents False
                                 then emit ''record.delete'' (PRec r) s3 else s3))
               else (Inr (), s1)))"

section \<open>Filters\<close>

definition applyFilters :: "store \<Rightarrow> jsrec list \<Rightarrow> jsrec list" where
  "applyFilters s data =
     (if length (u_filters s) = 0 then data
      else fold (\<lambda>flt d. filter (accepts flt) d) (u_filters s) data)"

definition records :: "store \<Rightarrow> jsrec list" where
  "records s = applyFilters s (u_data s)"

text \<open>
  Which array the getter \<open>records\<close> returns: \<open>applyFilters\<close> returns the array it was
  given, \<open>_data\<close> itself, when there is no filter, and a new array otherwise. A caller
  that changes the returned array in place changes \<open>_data\<close> in the first case only.
\<close>

datatype array_ref = DataArray | NewArray "jsrec list"

definition records_ref :: "store \<Rightarrow> array_ref" where
  "records_ref s =
     (if length (u_filters s) = 0 then DataArray
      else NewArray (fold (\<lambda>flt d. filter (accepts flt) d) (u_filters s) (u_data s)))"

definition addFilter :: "store \<Rightarrow> jsfilter \<Rightarrow> store" where
  "addFilter s fn = emit ''filter.create'' (PFilter (fid fn)) (s\<lparr>u_filters := u_filters s @ [fn]\<rparr>)"

datatype filter_ref = FNum int | FFn jsfilter

definition removeFilter :: "store \<Rightarrow> filter_ref \<Rightarrow> bool option \<Rightarrow> store" where
  "removeFilter s fn suppressEvents =
     (let (removed, rest) =
            (case fn of
               FNum n \<Rightarrow> splice1 (u_filters s) n
             | FFn f \<Rightarrow> splice1 (u_filters s) (indexOf_filter (u_filters s) f));
          s1 = s\<lparr>u_filters := rest\<rparr>
      in if length removed > 0 \<and> \<not> coalesce suppressEvents False
         then emit ''filter.delete'' (PFilter (fid (hd removed))) s1 else s1)"

section \<open>Queries\<close>

text \<open>
  The argument of \<open>find\<close>, by its \<open>typeof\<close>: \<open>undefined\<close>, \<open>null\<close> (an object that has
  no keys to enumerate), a function, a number, a string, a model instance or a
  field-to-value object, given by its keys in \<open>Object.keys\<close> order.
\<close>

datatype query =
    QAbsent | QNull | QFn "jsrec \<Rightarrow> bool" | QNum int | QStr string | QModel jsrec
  | QMap "(string \<times> jsval) list"

text \<open>
  What \<open>find\<close> returns: \<open>null\<close>, one record, or an array. An element of the array is
  \<open>None\<close> when it is \<open>undefined\<close> (a position read beyond the end of the records).
\<close>

datatype found = RNull | ROne jsrec | RMany "jsrec option list"

text \<open>
  \<open>me._data[index]\<close> for a cell taken from a bucket. The cells of a bucket after the first
  are positions pushed by \<open>applyIndices\<close>, so the cell is a number.
\<close>

definition data_at :: "jsrec list \<Rightarrow> jsval \<Rightarrow> jsrec option" where
  "data_at xs index =
     (case index of
        JNum n \<Rightarrow> (if 0 \<le> n \<and> n < int (length xs) then Some (xs ! nat n) else None)
      | _ \<Rightarrow> None)"

text \<open>\<open>query[field]\<close>.\<close>

definition qval :: "(string \<times> jsval) list \<Rightarrow> string \<Rightarrow> jsval" where
  "qval q field = (case map_of q field of None \<Rightarrow> JUndefined | Some v \<Rightarrow> v)"

text \<open>\<open>res instanceof Array ? res : [res]\<close>, for a result that is not \<open>null\<close>.\<close>

definition as_array :: "found \<Rightarrow> jsrec list" where
  "as_array res = (case res of RNull \<Rightarrow> [] | ROne r \<Rightarrow> [r] | RMany xs \<Rightarrow> List.map_filter id xs)"

text \<open>
  The end of \<open>find\<close>: the filters are applied to the result, and the array that
  \<open>applyFilters\<close> returns is dropped; \<open>res\<close> is returned.
\<close>

definition finish :: "store \<Rightarrow> bool option \<Rightarrow> found \<Rightarrow> (error + found) \<times> store" where
  "finish s ignoreFilters res =
     (if res = RNull then (Inr RNull, s)
      else (let dropped = (if \<not> coalesce ignoreFilters False
                           then applyFilters s (as_array res) else [])
            in (Inr res, s)))"

text \<open>The callback of the linear scan for an identity string.\<close>

definition id_matches :: "string \<Rightarrow> jsrec \<Rightarrow> bool" where
  "id_matches q rec = (trim (js_toString (or_empty (getv rec (idAttribute rec)))) = trim q)"

definition find_string :: "store \<Rightarrow> string \<Rightarrow> bool option \<Rightarrow> (error + found) \<times> store" where
  "find_string s q ignoreFilters =
     (let (i, s1) = getIndices s (idAttribute (u_data s ! 0)) (JStr (trim q))
      in if i \<noteq> None \<and> length (the i) > 0
         then (Inr (RMany (map (data_at (u_data s1)) (the i))), s1)
         else
           (let r = filter (id_matches q) (u_data s1)
            in finish s1 ignoreFilters (if length r = 0 then RNull else ROne (r ! 0))))"

text \<open>The loop over the keys of the query: positions from indexed fields, and the fields without index.\<close>

fun collect_keys ::
  "(string \<times> jsval) list \<Rightarrow> string list \<Rightarrow> jsval list \<times> string list \<times> store
     \<Rightarrow> jsval list \<times> string list \<times> store" where
  "collect_keys q [] acc = acc"
| "collect_keys q (field # others) (match, noindex, s) =
     (case getIndices s field (qval q field) of
        (Some index, s1) \<Rightarrow> collect_keys q others (match @ index, noindex, s1)
      | (None, s1) \<Rightarrow> collect_keys q others (match, noindex @ [field], s1))"

text \<open>The loop of the last \<open>filter\<close> callback over all keys, for a record.\<close>

definition keys_match :: "(string \<times> jsval) list \<Rightarrow> string list \<Rightarrow> jsrec \<Rightarrow> bool" where
  "keys_match q keys record = list_all (\<lambda>k. qval q k = getv record k) keys"

text \<open>The last \<open>filter\<close>: reading a property of \<open>undefined\<close> throws.\<close>

fun final_filter ::
  "(string \<times> jsval) list \<Rightarrow> string list \<Rightarrow> jsrec option list \<Rightarrow> error + jsrec option list" where
  "final_filter q keys [] = Inr []"
| "final_filter q keys (x # xs) =
     (if keys = [] then map_sum id (\<lambda>ys. x # ys) (final_filter q keys xs)
      else (case x of
              None \<Rightarrow> Inl TypeError
            | Some record \<Rightarrow>
                (if keys_match q keys record
                 then map_sum id (\<lambda>ys. x # ys) (final_filter q keys xs)
                 else final_filter q keys xs)))"

definition find_map ::
  "store \<Rightarrow> (string \<times> jsval) list \<Rightarrow> bool option \<Rightarrow> (error + found) \<times> store" where
  "find_map s q ignoreFilters =
     (let keys = map fst q;
          (match, noindex, s1) = collect_keys q keys ([], [], s);
          res = (if length noindex > 0
                 then map snd (filter (\<lambda>(i, record).
                        \<not> indexOf_val match (JNum (int i)) \<ge> 0 \<and>
                        list_all (\<lambda>x. getv record x = qval q x) noindex)
                      (enumerate 0 (u_data s1)))
                 else [])
      in case final_filter q keys (map Some res @ map (data_at (u_data s1)) match) of
           Inl e \<Rightarrow> (Inl e, s1)
         | Inr xs \<Rightarrow> finish s1 ignoreFilters (RMany xs))"

definition find_store :: "store \<Rightarrow> query \<Rightarrow> bool option \<Rightarrow> (error + found) \<times> store" where
  "find_store s q ignoreFilters =
     (if length (u_data s) = 0 then (Inr (RMany []), s)
      else (case q of
              QFn p \<Rightarrow> finish s ignoreFilters (RMany (map Some (filter p (u_data s))))
            | QNum n \<Rightarrow>
                finish s ignoreFilters
                  (if n < 0 \<or> n \<ge> int (length (u_data s)) then RNull else ROne (u_data s ! nat n))
            | QStr str \<Rightarrow> find_string s str ignoreFilters
            | QModel m \<Rightarrow> (Inr (if contains s m then ROne m else RNull), s)
            | QNull \<Rightarrow> (Inl TypeError, s)
            | QMap m \<Rightarrow> find_map s m ignoreFilters
            | QAbsent \<Rightarrow> finish s ignoreFilters (RMany (map Some (u_data s)))))"

section \<open>Sorting\<close>

text \<open>
  \<open>Array.prototype.sort\<close> with a compare function: a positive result puts the first
  argument after the second. The sort is stable; it is modelled as an insertion sort.
\<close>

fun insert_by :: "('a \<Rightarrow> 'a \<Rightarrow> int) \<Rightarrow> 'a \<Rightarrow> 'a list \<Rightarrow> 'a list" where
  "insert_by cmp x [] = [x]"
| "insert_by cmp x (y # ys) = (if cmp x y \<le> 0 then x # y # ys else y # insert_by cmp x ys)"

definition array_sort :: "('a \<Rightarrow> 'a \<Rightarrow> int) \<Rightarrow> 'a list \<Rightarrow> 'a list" where
  "array_sort cmp xs = foldr (insert_by cmp) xs []"

text \<open>
  The value given for a key of the sort map: a string or a compare function (whose result
  is read as a number).
\<close>

datatype direction = DStr string | DFn "jsrec \<Rightarrow> jsrec \<Rightarrow> int"

datatype sorter = SFn "jsrec \<Rightarrow> jsrec \<Rightarrow> int" | SMap "(string \<times> direction) list" | SOther

text \<open>
  The compare function that \<open>sort\<close> builds from a field map. \<open>lt x y\<close> is the
  relational comparison \<open>x < y\<close> of JavaScript (\<open>x > y\<close> is \<open>lt y x\<close>); its coercions
  are not part of the store and it is a parameter. The text of a function is neither
  \<open>asc\<close> nor \<open>desc\<close>, so a function takes the default branch of the switch.
\<close>

fun compare_keys ::
  "(jsval \<Rightarrow> jsval \<Rightarrow> bool) \<Rightarrow> (string \<times> direction) list \<Rightarrow> jsrec \<Rightarrow> jsrec \<Rightarrow> int" where
  "compare_keys lt [] a b = 0"
| "compare_keys lt ((k, d) # keys) a b =
     (if hasOwnProperty a k \<and> \<not> hasOwnProperty b k then 1
      else if \<not> hasOwnProperty a k \<and> hasOwnProperty b k then -1
      else if getv a k \<noteq> getv b k
      then (case d of
              DStr str \<Rightarrow>
                (if toLowerCase (trim str) = ''asc''
                 then (if lt (getv b k) (getv a k) then 1 else -1)
                 else if toLowerCase (trim str) = ''desc''
                 then (if lt (getv a k) (getv b k) then 1 else -1)
                 else 0)
            | DFn f \<Rightarrow> f a b)
      else compare_keys lt keys a b)"

text \<open>
  \<open>arr.sort(cmp)\<close> sorts the array in place: the store changes when the array is
  \<open>_data\<close>, and a new array that nothing else refers to is sorted and dropped.
\<close>

definition sort_in_place :: "store \<Rightarrow> array_ref \<Rightarrow> (jsrec \<Rightarrow> jsrec \<Rightarrow> int) \<Rightarrow> store" where
  "sort_in_place s arr cmp =
     (case arr of
        DataArray \<Rightarrow> s\<lparr>u_data := array_sort cmp (u_data s)\<rparr>
      | NewArray xs \<Rightarrow> (let dropped = array_sort cmp xs in s))"

definition sort_store :: "(jsval \<Rightarrow> jsval \<Rightarrow> bool) \<Rightarrow> store \<Rightarrow> sorter \<Rightarrow> store" where
  "sort_store lt s fn =
     reindex (case fn of
                SFn f \<Rightarrow> sort_in_place s (records_ref s) f
              | SMap m \<Rightarrow> sort_in_place s (records_ref s) (compare_keys lt m)
              | SOther \<Rightarrow> s)"

text \<open>A store as the constructor builds it, with the given index fields.\<close>

definition new_store :: "string list \<Rightarrow> bool \<Rightarrow> bool \<Rightarrow> store" where
  "new_store index allowDup errorOnDup =
     \<lparr>u_data = [], u_filters = [], u_index = map (\<lambda>i. (i, [])) index,
      u_created = [], u_deleted = [], u_loading = False,
      allowDuplicates = allowDup, errorOnDuplicate = errorOnDup, emitted = []\<rparr>"

section \<open>Notions used in the proofs, and example stores\<close>

text \<open>The positions that a lookup of \<open>v\<close> collects from an array of buckets.\<close>

definition collected :: "jsval \<Rightarrow> jsval list list \<Rightarrow> jsval list" where
  "collected v bs = concat (map tl (filter (hit v) bs))"

text \<open>Every bucket has a first cell, and no two buckets have the same one.\<close>

definition good :: "jsval list list \<Rightarrow> bool" where
  "good bs = ((\<forall>b\<in>set bs. b \<noteq> []) \<and> distinct (map first_cell bs))"

text \<open>A bucket cell that is a position of a stored record, and an index whose buckets hold
  only such cells after their first one.\<close>

definition cell_ok :: "nat \<Rightarrow> jsval \<Rightarrow> bool" where
  "cell_ok len c = (case c of JNum n \<Rightarrow> 0 \<le> n \<and> n < int len | _ \<Rightarrow> False)"

definition index_ok :: "nat \<Rightarrow> (string \<times> jsval list list) list \<Rightarrow> bool" where
  "index_ok len idx =
     list_all (\<lambda>(field, values). list_all (\<lambda>b. list_all (cell_ok len) (tl b)) values) idx"

definition positions_in_range :: "store \<Rightarrow> bool" where
  "positions_in_range s = index_ok (length (u_data s)) (u_index s)"

definition person :: "nat \<Rightarrow> string \<Rightarrow> string \<Rightarrow> jsrec" where
  "person n fname lname =
     \<lparr>oid = n, isModel = True, checksum = JStr (fname @ '' '' @ lname), idAttribute = ''id'',
      props = [(''fname'', JStr fname), (''lname'', JStr lname)]\<rparr>"

definition people :: "jsrec list" where
  "people = [person 1 ''John'' ''Doe'', person 2 ''Jane'' ''Doe'', person 3 ''Jane'' ''Vaughn'']"

text \<open>Three records in a store with indexes on \<open>lname\<close> and \<open>fname\<close>, before any indexing.\<close>

definition people_store :: store where
  "people_store = (new_store [''lname'', ''fname''] True True)\<lparr>u_data := people\<rparr>"

text \<open>A filter that rejects the records whose \<open>lname\<close> is \<open>Vaughn\<close>.\<close>

definition no_vaughn :: jsfilter where
  "no_vaughn = \<lparr>fid = 1, accepts = (\<lambda>r. getv r ''lname'' \<noteq> JStr ''Vaughn'')\<rparr>"

definition filtered_store :: store where
  "filtered_store = addFilter people_store no_vaughn"

text \<open>Two records agree on a key: both have it or both lack it, and the values are equal.\<close>

definition tied :: "string \<Rightarrow> jsrec \<Rightarrow> jsrec \<Rightarrow> bool" where
  "tied k a b = ((hasOwnProperty a k \<longleftrightarrow> hasOwnProperty b k) \<and> getv a k = getv b k)"

text \<open>
  The relational comparison on two numbers and on two strings (by code units), for the
  examples; no example compares values of different types.
\<close>

fun str_lt :: "string \<Rightarrow> string \<Rightarrow> bool" where
  "str_lt [] [] = False"
| "str_lt [] (y # ys) = True"
| "str_lt (x # xs) [] = False"
| "str_lt (x # xs) (y # ys) =
     ((of_char x :: nat) < of_char y \<or> ((of_char x :: nat) = of_char y \<and> str_lt xs ys))"

definition lt_same_type :: "jsval \<Rightarrow> jsval \<Rightarrow> bool" where
  "lt_same_type x y = (case (x, y) of (JNum m, JNum n) \<Rightarrow> m < n
     | (JStr a, JStr b) \<Rightarrow> str_lt a b | _ \<Rightarrow> False)"

definition aged :: jsrec where
  "aged = \<lparr>oid = 4, isModel = False, checksum = JStr ''a'', idAttribute = ''id'',
            props = [(''name'', JStr ''Ann''), (''age'', JNum 30)]\<rparr>"

definition ageless :: jsrec where
  "ageless = \<lparr>oid = 5, isModel = False, checksum = JStr ''b'', idAttribute = ''id'',
               props = [(''name'', JStr ''Bob'')]\<rparr>"







text \<open>
  Two records with the numbers 5 and 0 in the field \<open>age\<close>, in a store with an index on
  \<open>age\<close>, before any indexing.
\<close>

definition age_rec :: "nat \<Rightarrow> int \<Rightarrow> jsrec" where
  "age_rec n a =
     \<lparr>oid = n, isModel = False, checksum = JNum a, idAttribute = ''id'',
      props = [(''age'', JNum a)]\<rparr>"

definition ages_store :: store where
  "ages_store = (new_store [''age''] True True)\<lparr>u_data := [age_rec 6 5, age_rec 7 0]\<rparr>"

lemmas example_defs =
  people_store_def new_store_def people_def person_def hasOwnProperty_def getv_def
  first_cell_def hit_def enumerate_eq_zip

section \<open>The index after a reindex\<close>

lemma first_cell_snoc: "b \<noteq> [] \<Longrightarrow> first_cell (b @ [x]) = first_cell b"
  by (cases b) (simp_all add: first_cell_def)

lemma heads_apply_bucket:
  "(\<forall>b\<in>set bs. b \<noteq> []) \<Longrightarrow>
   set (map first_cell (apply_bucket bs v n)) = insert v (set (map first_cell bs))"
  by (induction bs) (auto simp: first_cell_def first_cell_snoc split: list.splits)

lemma good_apply_bucket: "good bs \<Longrightarrow> good (apply_bucket bs v n)"
proof (induction bs)
  case Nil
  then show ?case by (simp add: good_def first_cell_def)
next
  case (Cons b bs)
  then have g: "good bs" and ne: "b \<noteq> []" "\<forall>c\<in>set bs. c \<noteq> []"
    and nb: "first_cell b \<notin> set (map first_cell bs)"
    by (auto simp: good_def)
  show ?case
  proof (cases "first_cell b = v")
    case True
    then show ?thesis using Cons.prems ne by (auto simp: good_def first_cell_snoc)
  next
    case False
    have "good (apply_bucket bs v n)" using Cons.IH g by simp
    moreover have "first_cell b \<notin> set (map first_cell (apply_bucket bs v n))"
      using heads_apply_bucket[OF ne(2), of v n] nb False by auto
    ultimately show ?thesis using False ne by (auto simp: good_def)
  qed
qed

lemma collected_absent:
  "v \<notin> set (map first_cell bs) \<Longrightarrow> collected v bs = []"
  by (induction bs) (auto simp: collected_def hit_def)

lemma collected_apply_bucket:
  "good bs \<Longrightarrow>
   collected w (apply_bucket bs v n) = collected w bs @ (if v = w then [JNum n] else [])"
proof (induction bs)
  case Nil
  then show ?case by (simp add: collected_def hit_def first_cell_def)
next
  case (Cons b bs)
  then have g: "good bs" and ne: "b \<noteq> []"
    and nb: "first_cell b \<notin> set (map first_cell bs)"
    by (auto simp: good_def)
  show ?case
  proof (cases "first_cell b = v")
    case True
    have rest: "v = w \<Longrightarrow> collected w bs = []"
      using nb True collected_absent by blast
    show ?thesis
    proof (cases "v = w")
      case eq: True
      have "collected w (apply_bucket (b # bs) v n) = tl (b @ [JNum n]) @ collected w bs"
        using True eq ne by (simp add: collected_def hit_def first_cell_snoc)
      moreover have "collected w (b # bs) = tl b @ collected w bs"
        using True eq ne by (simp add: collected_def hit_def)
      ultimately show ?thesis using rest[OF eq] eq ne by simp
    next
      case False
      then show ?thesis using True ne
        by (simp add: collected_def hit_def first_cell_snoc)
    qed
  next
    case False
    have "collected w (apply_bucket (b # bs) v n) =
          (if hit w b then tl b else []) @ collected w (apply_bucket bs v n)"
      using False by (simp add: collected_def)
    moreover have "collected w (b # bs) = (if hit w b then tl b else []) @ collected w bs"
      by (simp add: collected_def)
    ultimately show ?thesis using Cons.IH[OF g] by simp
  qed
qed

lemma hits_at_most_one: "good bs \<Longrightarrow> length (filter (hit w) bs) \<le> 1"
proof (induction bs)
  case Nil
  then show ?case by simp
next
  case (Cons b bs)
  then have g: "good bs" and nb: "first_cell b \<notin> set (map first_cell bs)"
    by (auto simp: good_def)
  have "filter (hit w) bs = []" if h: "hit w b"
  proof -
    have "\<not> hit w c" if "c \<in> set bs" for c
      using nb h that by (force simp: hit_def image_iff)
    then show ?thesis by (simp add: filter_empty_conv)
  qed
  then show ?case using Cons.IH g by auto
qed

lemma getIndices_collected:
  assumes "map_of (u_index s) f = Some bs" and "good bs"
  shows "fst (getIndices s f v) = Some (collected v bs)"
proof -
  have le: "length (filter (hit v) bs) \<le> 1" using assms(2) by (rule hits_at_most_one)
  show ?thesis
  proof (cases "filter (hit v) bs")
    case Nil
    then show ?thesis using assms(1) by (simp add: getIndices_def collected_def)
  next
    case (Cons c cs)
    then have "cs = []" using le by simp
    then show ?thesis using assms(1) Cons by (simp add: getIndices_def collected_def)
  qed
qed

lemma map_of_map_entry:
  "map_of (map (\<lambda>(k, x). (k, g k x)) xs) f = map_option (g f) (map_of xs f)"
  by (induction xs) auto

lemma entry_applyIndices:
  "map_of (u_index (applyIndices t r n)) f =
   map_option (\<lambda>bs. if hasOwnProperty r f then apply_bucket bs (getv r f) n else bs)
     (map_of (u_index t) f)"
  unfolding applyIndices_def by (simp add: map_of_map_entry)

lemma entry_clearIndices:
  "map_of (u_index (clearIndices s)) f = map_option (\<lambda>bs. []) (map_of (u_index s) f)"
  unfolding clearIndices_def by (simp add: map_of_map_entry)

lemma fold_applyIndices:
  "map_of (u_index t) f = Some bs \<Longrightarrow> good bs \<Longrightarrow>
   \<exists>bs'. map_of (u_index (fold (\<lambda>(i, r) t. applyIndices t r (int i)) irs t)) f = Some bs'
      \<and> good bs'
      \<and> collected w bs' = collected w bs @
          map (\<lambda>(i, r). JNum (int i))
            (filter (\<lambda>(i, r). hasOwnProperty r f \<and> getv r f = w) irs)"
proof (induction irs arbitrary: t bs)
  case Nil
  then show ?case by simp
next
  case (Cons ir irs)
  obtain i r where ir: "ir = (i, r)" by (cases ir)
  let ?t = "applyIndices t r (int i)"
  let ?bs = "if hasOwnProperty r f then apply_bucket bs (getv r f) (int i) else bs"
  have e: "map_of (u_index ?t) f = Some ?bs"
    using Cons.prems(1) by (simp add: entry_applyIndices)
  have g: "good ?bs" using Cons.prems(2) by (simp add: good_apply_bucket)
  from Cons.IH[OF e g] obtain bs' where
    1: "map_of (u_index (fold (\<lambda>(i, r) t. applyIndices t r (int i)) irs ?t)) f = Some bs'"
    and 2: "good bs'"
    and 3: "collected w bs' = collected w ?bs @
          map (\<lambda>(i, r). JNum (int i))
            (filter (\<lambda>(i, r). hasOwnProperty r f \<and> getv r f = w) irs)"
    by blast
  have 4: "collected w ?bs = collected w bs @
      (if hasOwnProperty r f \<and> getv r f = w then [JNum (int i)] else [])"
    using Cons.prems(2) by (simp add: collected_apply_bucket)
  show ?case using 1 2 3 4 ir by auto
qed

lemma enumerate_filter_positions:
  "map fst (filter (\<lambda>(i, r). P r) (enumerate n xs)) =
   filter (\<lambda>p. P (xs ! (p - n))) [n..<n + length xs]"
proof (induction xs arbitrary: n)
  case Nil
  then show ?case by simp
next
  case (Cons x xs)
  have "filter (\<lambda>p. P ((x # xs) ! (p - n))) [Suc n..<Suc n + length xs] =
        filter (\<lambda>p. P (xs ! (p - Suc n))) [Suc n..<Suc n + length xs]"
  proof (rule filter_cong)
    fix p assume "p \<in> set [Suc n..<Suc n + length xs]"
    then have "p - n = Suc (p - Suc n)" by auto
    then show "P ((x # xs) ! (p - n)) = P (xs ! (p - Suc n))" by simp
  qed simp
  moreover have "[n..<n + length (x # xs)] = n # [Suc n..<Suc n + length xs]"
    using upt_conv_Cons[of n "n + length (x # xs)"] by simp
  ultimately show ?case using Cons.IH[of "Suc n"] by (simp del: upt_Suc)
qed

text \<open>
  The first lookup after \<open>reindex\<close>, on any store whatever: \<open>getIndices(f, v)\<close> for an
  indexed field \<open>f\<close> returns exactly the positions \<open>p\<close> whose record has the field
  \<open>f\<close> with the value \<open>v\<close>, in increasing order.
\<close>

theorem reindex_lookup_exact:
  assumes "f \<in> set (map fst (u_index s))"
  shows "fst (getIndices (reindex s) f v) =
         Some (map (\<lambda>p. JNum (int p))
           (filter (\<lambda>p. hasOwnProperty (u_data s ! p) f \<and> getv (u_data s ! p) f = v)
              [0..<length (u_data s)]))"
proof -
  from assms obtain old where "map_of (u_index s) f = Some old"
    by (metis map_of_eq_None_iff not_Some_eq set_map)
  then have e: "map_of (u_index (clearIndices s)) f = Some []"
    by (simp add: entry_clearIndices)
  have g: "good []" by (simp add: good_def)
  from fold_applyIndices[OF e g, where w = v and irs = "enumerate 0 (u_data s)"] obtain bs' where
    1: "map_of (u_index (reindex s)) f = Some bs'" and 2: "good bs'"
    and 3: "collected v bs' = map (\<lambda>(i, r). JNum (int i))
        (filter (\<lambda>(i, r). hasOwnProperty r f \<and> getv r f = v) (enumerate 0 (u_data s)))"
    by (auto simp: reindex_def collected_def)
  have "map (\<lambda>(i, r). JNum (int i)) xs = map (\<lambda>p. JNum (int p)) (map fst xs)" for xs :: "(nat \<times> jsrec) list"
    by (induction xs) auto
  then have "collected v bs' = map (\<lambda>p. JNum (int p))
      (map fst (filter (\<lambda>(i, r). hasOwnProperty r f \<and> getv r f = v) (enumerate 0 (u_data s))))"
    using 3 by simp
  also have "\<dots> = map (\<lambda>p. JNum (int p))
           (filter (\<lambda>p. hasOwnProperty (u_data s ! p) f \<and> getv (u_data s ! p) f = v)
              [0..<length (u_data s)])"
    using enumerate_filter_positions[of "\<lambda>r. hasOwnProperty r f \<and> getv r f = v" 0 "u_data s"]
    by simp
  finally show ?thesis using getIndices_collected[OF 1 2, of v] by simp
qed

theorem reindex_lookup_exact_witness:
  "''lname'' \<in> set (map fst (u_index people_store)) \<and>
   fst (getIndices (reindex people_store) ''lname'' (JStr ''Doe'')) = Some [JNum 0, JNum 1]"
  using reindex_lookup_exact [of "''lname''" people_store "JStr ''Doe''"]
  by (simp add: example_defs)

text \<open>
  C1. The lookup changes the index: it shifts the value off the bucket that it returns. In
  the reindexed example store the first lookup of \<open>Doe\<close> in \<open>lname\<close> returns the
  positions 0 and 1; the records stay as they are, and the second lookup of \<open>Doe\<close>
  returns no position. In the reindexed store with the ages 5 and 0, the lookup of 5
  returns position 0 and leaves the bucket \<open>[0]\<close>; the lookup of 0 that follows finds two
  buckets that start with 0 and returns no position, where the record at position 1 has the
  age 0.
\<close>

theorem repeated_lookup_loses_positions:
  "fst (getIndices (reindex people_store) ''lname'' (JStr ''Doe'')) = Some [JNum 0, JNum 1] \<and>
   u_data (snd (getIndices (reindex people_store) ''lname'' (JStr ''Doe''))) = people \<and>
   fst (getIndices (snd (getIndices (reindex people_store) ''lname'' (JStr ''Doe'')))
          ''lname'' (JStr ''Doe'')) = Some [] \<and>
   u_index (reindex ages_store) = [(''age'', [[JNum 5, JNum 0], [JNum 0, JNum 1]])] \<and>
   fst (getIndices (reindex ages_store) ''age'' (JNum 5)) = Some [JNum 0] \<and>
   u_index (snd (getIndices (reindex ages_store) ''age'' (JNum 5))) =
     [(''age'', [[JNum 0], [JNum 0, JNum 1]])] \<and>
   getv (u_data (reindex ages_store) ! 1) ''age'' = JNum 0 \<and>
   fst (getIndices (snd (getIndices (reindex ages_store) ''age'' (JNum 5))) ''age'' (JNum 0)) =
     Some []"
  by (simp add: example_defs ages_store_def age_rec_def reindex_def clearIndices_def
      applyIndices_def getIndices_def set_entry_def)

section \<open>Removing a position from the index\<close>



text \<open>
  C4. In the reindexed example store the position 0 is in the \<open>Doe\<close> bucket of \<open>lname\<close> and
  in the \<open>John\<close> bucket of \<open>fname\<close>. After \<open>unapplyIndices(0)\<close> both buckets still hold
  it: the index is the same as before.
\<close>

theorem unapplyIndices_leaves_position:
  "u_index (reindex people_store) =
     [(''lname'', [[JStr ''Doe'', JNum 0, JNum 1], [JStr ''Vaughn'', JNum 2]]),
      (''fname'', [[JStr ''John'', JNum 0], [JStr ''Jane'', JNum 1, JNum 2]])] \<and>
   u_index (unapplyIndices (reindex people_store) 0) = u_index (reindex people_store)"
  by (simp add: example_defs reindex_def clearIndices_def applyIndices_def unapplyIndices_def)

section \<open>Array facts\<close>

lemma findIndex_none: "\<forall>x\<in>set xs. \<not> p x \<Longrightarrow> findIndex p xs = -1"
  by (induction xs) simp_all








lemma splice1_beyond: "int (length xs) \<le> n \<Longrightarrow> splice1 xs n = ([], xs)"
  by (simp add: splice1_def Let_def min_def)

lemma splice1_minus_one: "xs \<noteq> [] \<Longrightarrow> splice1 xs (-1) = ([last xs], butlast xs)"
proof -
  assume ne: "xs \<noteq> []"
  then obtain ys y where xs: "xs = ys @ [y]" by (metis append_butlast_last_id)
  have k: "nat (max (int (length xs) + - 1) 0) = length ys" using xs by simp
  show ?thesis unfolding splice1_def Let_def using k xs by simp
qed

section \<open>Removing by an out-of-range position\<close>

lemma remove_negative: "n < 0 \<Longrightarrow> remove s (ByNum n) suppress = (Inl RecordNotFound, s)"
  by (simp add: remove_def resolve_def)

lemma remove_beyond:
  "int (length (u_data s)) \<le> n \<Longrightarrow> remove s (ByNum n) suppress = (Inr (), s)"
  by (simp add: remove_def resolve_def splice1_beyond)

text \<open>
  C3. The example store holds three records. \<open>remove(3)\<close>, a position equal to the record
  count, returns normally: no error is raised (the store is unchanged). \<open>remove(-1)\<close>
  raises the not-found error and leaves the store unchanged.
\<close>

theorem remove_beyond_end_returns:
  "length (u_data people_store) = 3 \<and>
   remove people_store (ByNum 3) None = (Inr (), people_store) \<and>
   remove people_store (ByNum (-1)) None = (Inl RecordNotFound, people_store)"
  using remove_beyond [of people_store 3 None] remove_negative [of "-1" people_store None]
  by (simp add: people_store_def people_def)

section \<open>Filters and find\<close>

text \<open>Whatever the filters and the flag are, \<open>find()\<close> returns all stored records.\<close>

lemma find_all_unfiltered:
  "u_data s \<noteq> [] \<Longrightarrow> fst (find_store s QAbsent ign) = Inr (RMany (map Some (u_data s)))"
  by (simp add: find_store_def finish_def)

text \<open>
  C2. The store has the filter \<open>no_vaughn\<close>, which rejects the record Jane Vaughn; the
  filtered view \<open>records\<close> leaves her out. \<open>find()\<close> with \<open>ignoreFilters\<close> unset returns
  all three records, Jane Vaughn among them.
\<close>

theorem find_returns_rejected_record:
  "\<not> accepts no_vaughn (person 3 ''Jane'' ''Vaughn'') \<and>
   records filtered_store = [person 1 ''John'' ''Doe'', person 2 ''Jane'' ''Doe''] \<and>
   fst (find_store filtered_store QAbsent None) =
     Inr (RMany [Some (person 1 ''John'' ''Doe''), Some (person 2 ''Jane'' ''Doe''),
                 Some (person 3 ''Jane'' ''Vaughn'')])"
  by (simp add: filtered_store_def addFilter_def emit_def no_vaughn_def example_defs
      records_def applyFilters_def find_store_def finish_def)

text \<open>
  C5. On the reindexed example store, \<open>find({lname: 'Doe', fname: 'Jane'})\<close>, both fields
  indexed, returns the one matching record, Jane Doe, twice.
\<close>

theorem find_map_returns_record_twice:
  "fst (find_store (reindex people_store)
          (QMap [(''lname'', JStr ''Doe''), (''fname'', JStr ''Jane'')]) None) =
     Inr (RMany [Some (person 2 ''Jane'' ''Doe''), Some (person 2 ''Jane'' ''Doe'')])"
  by (simp add: example_defs reindex_def clearIndices_def applyIndices_def find_store_def
      find_map_def getIndices_def set_entry_def qval_def data_at_def finish_def
      keys_match_def)

text \<open>
  C9. When the filter list is not empty and the function \<open>f\<close> is none of the registered
  filters, \<open>removeFilter(f)\<close> removes the last filter of the list (the most recently added
  one) and, unless events are suppressed, emits \<open>filter.delete\<close> for it.
\<close>

theorem removeFilter_unregistered:
  assumes "u_filters s \<noteq> []" and "\<forall>g\<in>set (u_filters s). fid g \<noteq> fid f"
  shows "u_filters (removeFilter s (FFn f) suppress) = butlast (u_filters s) \<and>
         (\<not> coalesce suppress False \<longrightarrow>
            emitted (removeFilter s (FFn f) suppress) =
              emitted s @ [(''filter.delete'', PFilter (fid (last (u_filters s))))])"
proof -
  have "indexOf_filter (u_filters s) f = -1"
    unfolding indexOf_filter_def using assms(2) by (intro findIndex_none) simp
  then show ?thesis using splice1_minus_one[OF assms(1)]
    by (simp add: removeFilter_def emit_def Let_def)
qed


theorem removeFilter_unregistered_witness:
  "u_filters filtered_store \<noteq> [] \<and>
   fid (no_vaughn\<lparr>fid := 2\<rparr>) \<notin> set (map fid (u_filters filtered_store)) \<and>
   u_filters (removeFilter filtered_store (FFn (no_vaughn\<lparr>fid := 2\<rparr>)) None) = [] \<and>
   \<not> coalesce None False \<and>
   emitted (removeFilter filtered_store (FFn (no_vaughn\<lparr>fid := 2\<rparr>)) None) =
     [(''filter.create'', PFilter 1), (''filter.delete'', PFilter 1)]"
  using removeFilter_unregistered [of filtered_store "no_vaughn\<lparr>fid := 2\<rparr>" None]
  by (simp add: filtered_store_def addFilter_def emit_def no_vaughn_def people_store_def
      new_store_def coalesce_def)

section \<open>Sorting\<close>

lemma u_data_applyIndices: "u_data (applyIndices t r n) = u_data t"
  by (simp add: applyIndices_def)

lemma u_data_fold_applyIndices:
  "u_data (fold (\<lambda>(i, r) t. applyIndices t r (int i)) irs t) = u_data t"
  by (induction irs arbitrary: t) (auto simp: u_data_applyIndices)

lemma u_data_reindex: "u_data (reindex s) = u_data s"
  by (simp add: reindex_def u_data_fold_applyIndices clearIndices_def)

text \<open>
  C10. With at least one filter registered, \<open>sort\<close> leaves the stored record sequence as it
  was, whatever the sorter. Without filters the stored sequence becomes the sorted one.
\<close>

theorem sort_reorders_only_without_filters:
  "(u_filters s \<noteq> [] \<longrightarrow> u_data (sort_store lt s fn) = u_data s) \<and>
   (u_filters s = [] \<longrightarrow>
      u_data (sort_store lt s fn) =
        (case fn of SFn f \<Rightarrow> array_sort f (u_data s)
         | SMap m \<Rightarrow> array_sort (compare_keys lt m) (u_data s)
         | SOther \<Rightarrow> u_data s))"
  by (cases fn) (simp_all add: sort_store_def sort_in_place_def records_ref_def u_data_reindex)



theorem sort_reorders_only_without_filters_witness:
  "u_filters filtered_store \<noteq> [] \<and>
   u_data (sort_store lt_same_type filtered_store (SMap [(''lname'', DStr ''desc'')])) = people \<and>
   u_filters people_store = [] \<and>
   u_data (sort_store lt_same_type people_store (SMap [(''lname'', DStr ''desc'')])) =
     [person 3 ''Jane'' ''Vaughn'', person 1 ''John'' ''Doe'', person 2 ''Jane'' ''Doe'']"
  using sort_reorders_only_without_filters
          [of filtered_store lt_same_type "SMap [(''lname'', DStr ''desc'')]"]
        sort_reorders_only_without_filters
          [of people_store lt_same_type "SMap [(''lname'', DStr ''desc'')]"]
  by (simp add: filtered_store_def addFilter_def emit_def no_vaughn_def example_defs
      array_sort_def lt_same_type_def trim_def is_space_def toLowerCase_def)

lemma compare_keys_tied_prefix:
  "\<forall>k\<in>set (map fst pre). tied k a b \<Longrightarrow>
   compare_keys lt (pre @ keys) a b = compare_keys lt keys a b"
  by (induction pre) (auto simp: tied_def)

text \<open>
  C6 (amended). The keys of the sort map are compared in map order; keys on which the two
  records agree are passed over. At the first other key: when one record has the key and
  the other lacks it, the record that has the key sorts after the one that lacks it; when
  both have it (or both lack it) with different values and a compare function is given
  for the key, the result is that function's.
\<close>

theorem sort_key_order:
  assumes "\<forall>k\<in>set (map fst pre). tied k a b"
  shows "(hasOwnProperty a k \<and> \<not> hasOwnProperty b k \<longrightarrow>
            compare_keys lt (pre @ (k, d) # keys) a b = 1 \<and>
            compare_keys lt (pre @ (k, d) # keys) b a = -1) \<and>
         (tied k a b \<longrightarrow>
            compare_keys lt (pre @ (k, d) # keys) a b = compare_keys lt keys a b) \<and>
         ((hasOwnProperty a k \<longleftrightarrow> hasOwnProperty b k) \<and> getv a k \<noteq> getv b k \<longrightarrow>
            compare_keys lt (pre @ (k, DFn f) # keys) a b = f a b)"
proof -
  have sym: "\<forall>k\<in>set (map fst pre). tied k b a"
    using assms by (auto simp: tied_def)
  show ?thesis
    using compare_keys_tied_prefix[OF assms] compare_keys_tied_prefix[OF sym]
    by (auto simp: tied_def)
qed

theorem sort_key_order_witness:
  "tied ''zip'' aged ageless \<and>
   hasOwnProperty aged ''age'' \<and> \<not> hasOwnProperty ageless ''age'' \<and>
   compare_keys lt_same_type ([(''zip'', DStr ''asc'')] @ (''age'', DStr ''desc'') # []) aged ageless = 1 \<and>
   \<not> tied ''name'' aged ageless \<and>
   compare_keys lt_same_type ([(''zip'', DStr ''asc'')] @ (''name'', DFn (\<lambda>x y. 7)) # []) aged ageless = 7"
  using sort_key_order [of "[(''zip'', DStr ''asc'')]" aged ageless "''age''" lt_same_type "DStr ''desc''" "[]" "\<lambda>x y. 7"]
    sort_key_order [of "[(''zip'', DStr ''asc'')]" aged ageless "''name''" lt_same_type "DStr ''desc''" "[]" "\<lambda>x y. 7"]
  by (simp add: tied_def aged_def ageless_def hasOwnProperty_def getv_def)

text \<open>
  C6 as stated fails: \<open>ageless\<close> lacks the key \<open>age\<close> and \<open>aged\<close> has it; the comparison
  of \<open>ageless\<close> with \<open>aged\<close> is not positive, and the sort puts \<open>ageless\<close> first.
\<close>

theorem missing_key_sorts_first:
  "\<not> hasOwnProperty ageless ''age'' \<and> hasOwnProperty aged ''age'' \<and>
   \<not> 0 < compare_keys lt_same_type [(''age'', DStr ''asc'')] ageless aged \<and>
   array_sort (compare_keys lt_same_type [(''age'', DStr ''asc'')]) [aged, ageless] = [ageless, aged]"
  by (simp add: aged_def ageless_def hasOwnProperty_def getv_def array_sort_def)

section \<open>Change tracking\<close>







section \<open>Queries that match nothing\<close>

lemma u_data_getIndices: "u_data (snd (getIndices s f v)) = u_data s"
  by (simp add: getIndices_def Let_def split: option.splits)

lemma find_empty: "u_data s = [] \<Longrightarrow> fst (find_store s q ign) = Inr (RMany [])"
  by (simp add: find_store_def)

lemma find_num_out:
  "u_data s \<noteq> [] \<Longrightarrow> n < 0 \<or> int (length (u_data s)) \<le> n \<Longrightarrow>
   fst (find_store s (QNum n) ign) = Inr RNull"
  by (auto simp: find_store_def finish_def)

lemma find_fn_none:
  "u_data s \<noteq> [] \<Longrightarrow> \<forall>r\<in>set (u_data s). \<not> p r \<Longrightarrow>
   fst (find_store s (QFn p) ign) = Inr (RMany [])"
  by (simp add: find_store_def finish_def filter_empty_conv[THEN iffD2])

lemma find_str_none:
  assumes "u_data s \<noteq> []"
    and "fst (getIndices s (idAttribute (u_data s ! 0)) (JStr (trim str))) = None \<or>
         fst (getIndices s (idAttribute (u_data s ! 0)) (JStr (trim str))) = Some []"
    and "\<forall>r\<in>set (u_data s). \<not> id_matches str r"
  shows "fst (find_store s (QStr str) ign) = Inr RNull"
proof -
  obtain i s1 where g: "getIndices s (idAttribute (u_data s ! 0)) (JStr (trim str)) = (i, s1)"
    by (cases "getIndices s (idAttribute (u_data s ! 0)) (JStr (trim str))")
  have d: "u_data s1 = u_data s" using u_data_getIndices[of s] g by (metis snd_conv)
  have i: "\<not> (i \<noteq> None \<and> length (the i) > 0)" using assms(2) g by auto
  have "filter (id_matches str) (u_data s1) = []"
    using assms(3) d by (simp add: filter_empty_conv)
  then show ?thesis using assms(1) g i
    by (simp add: find_store_def find_string_def finish_def)
qed

lemma list_all_tl: "list_all P xs \<Longrightarrow> list_all P (tl xs)"
  by (cases xs) simp_all

lemma shift_first_ok:
  "list_all (\<lambda>b. list_all P (tl b)) bs \<Longrightarrow> list_all (\<lambda>b. list_all P (tl b)) (shift_first h bs)"
  by (induction bs) (auto simp: list_all_tl)

lemma index_ok_entry:
  "index_ok len idx \<Longrightarrow> map_of idx f = Some vals \<Longrightarrow>
   list_all (\<lambda>b. list_all (cell_ok len) (tl b)) vals"
  by (induction idx) (auto simp: index_ok_def split: if_splits)

lemma index_ok_set_entry:
  "index_ok len idx \<Longrightarrow> list_all (\<lambda>b. list_all (cell_ok len) (tl b)) vals \<Longrightarrow>
   index_ok len (set_entry f vals idx)"
  by (induction idx) (auto simp: index_ok_def set_entry_def)

lemma getIndices_ok:
  assumes "positions_in_range s" and "getIndices s f v = (r, s1)"
  shows "positions_in_range s1 \<and> u_data s1 = u_data s \<and>
         (\<forall>xs. r = Some xs \<longrightarrow> list_all (cell_ok (length (u_data s))) xs)"
proof (cases "map_of (u_index s) f")
  case None
  then show ?thesis using assms by (simp add: getIndices_def)
next
  case (Some vals)
  let ?len = "length (u_data s)"
  have ok: "list_all (\<lambda>b. list_all (cell_ok ?len) (tl b)) vals"
    using assms(1) Some index_ok_entry by (auto simp: positions_in_range_def)
  show ?thesis
  proof (cases "length (filter (hit v) vals) = 1")
    case False
    then show ?thesis using assms Some by (auto simp: getIndices_def)
  next
    case True
    then obtain b where b: "filter (hit v) vals = [b]"
      by (cases "filter (hit v) vals") auto
    then have "b \<in> set (filter (hit v) vals)" by simp
    then have "b \<in> set vals" by simp
    then have rb: "list_all (cell_ok ?len) (tl b)"
      using ok by (simp add: list_all_iff)
    have s1: "s1 = s\<lparr>u_index := set_entry f (shift_first (hit v) vals) (u_index s)\<rparr>"
      and r: "r = Some (tl b)"
      using assms(2) Some True b by (simp_all add: getIndices_def)
    have "index_ok ?len (set_entry f (shift_first (hit v) vals) (u_index s))"
      using assms(1) ok by (simp add: positions_in_range_def index_ok_set_entry shift_first_ok)
    then show ?thesis using s1 r rb by (simp add: positions_in_range_def)
  qed
qed

lemma collect_keys_ok:
  "positions_in_range s \<Longrightarrow> list_all (cell_ok (length (u_data s))) match \<Longrightarrow>
   collect_keys q keys (match, noindex, s) = (match1, noindex1, s1) \<Longrightarrow>
   u_data s1 = u_data s \<and> list_all (cell_ok (length (u_data s))) match1"
proof (induction keys arbitrary: match noindex s)
  case Nil
  then show ?case by simp
next
  case (Cons k keys)
  obtain r s2 where g: "getIndices s k (qval q k) = (r, s2)"
    by (cases "getIndices s k (qval q k)")
  from getIndices_ok[OF Cons.prems(1) g]
  have p2: "positions_in_range s2" and d2: "u_data s2 = u_data s"
    and rs: "\<forall>xs. r = Some xs \<longrightarrow> list_all (cell_ok (length (u_data s))) xs"
    by auto
  show ?case
  proof (cases r)
    case None
    then have "collect_keys q keys (match, noindex @ [k], s2) = (match1, noindex1, s1)"
      using Cons.prems(3) g by simp
    from Cons.IH[OF p2 _ this] Cons.prems(2) d2 show ?thesis by simp
  next
    case (Some xs)
    then have c: "collect_keys q keys (match @ xs, noindex, s2) = (match1, noindex1, s1)"
      using Cons.prems(3) g by simp
    have "list_all (cell_ok (length (u_data s2))) (match @ xs)"
      using Cons.prems(2) rs Some d2 by simp
    from Cons.IH[OF p2 this c] d2 show ?thesis by simp
  qed
qed

lemma data_at_ok: "cell_ok (length xs) c \<Longrightarrow> \<exists>r\<in>set xs. data_at xs c = Some r"
  by (cases c) (auto simp: cell_ok_def data_at_def)

lemma final_filter_none:
  "\<forall>x\<in>set xs. \<exists>r. x = Some r \<and> \<not> keys_match q keys r \<Longrightarrow> final_filter q keys xs = Inr []"
proof (induction xs)
  case Nil
  then show ?case by simp
next
  case (Cons x xs)
  then obtain r where "x = Some r" "\<not> keys_match q keys r" by auto
  moreover have "keys \<noteq> []" using calculation by (auto simp: keys_match_def)
  ultimately show ?case using Cons by simp
qed

lemma find_map_none:
  assumes "u_data s \<noteq> []" and "positions_in_range s"
    and "\<forall>r\<in>set (u_data s). \<not> keys_match m (map fst m) r"
  shows "fst (find_store s (QMap m) ign) = Inr (RMany [])"
proof -
  obtain match noindex s1 where c: "collect_keys m (map fst m) ([], [], s) = (match, noindex, s1)"
    by (cases "collect_keys m (map fst m) ([], [], s)") auto
  from collect_keys_ok[OF assms(2) _ c]
  have d: "u_data s1 = u_data s" and ok: "list_all (cell_ok (length (u_data s))) match"
    by simp_all
  let ?res = "(if length noindex > 0
                 then map snd (filter (\<lambda>(i, record).
                        \<not> indexOf_val match (JNum (int i)) \<ge> 0 \<and>
                        list_all (\<lambda>x. getv record x = qval m x) noindex)
                      (enumerate 0 (u_data s1)))
                 else [])"
  have res: "set ?res \<subseteq> set (u_data s)"
    using d by (auto simp: enumerate_eq_zip dest: set_zip_rightD)
  have "\<forall>x\<in>set (map Some ?res @ map (data_at (u_data s1)) match).
          \<exists>r. x = Some r \<and> \<not> keys_match m (map fst m) r"
  proof
    fix x assume "x \<in> set (map Some ?res @ map (data_at (u_data s1)) match)"
    then consider r where "x = Some r" "r \<in> set ?res"
      | c where "x = data_at (u_data s1) c" "c \<in> set match"
      by auto
    then show "\<exists>r. x = Some r \<and> \<not> keys_match m (map fst m) r"
    proof cases
      case 1
      then show ?thesis using res assms(3) by blast
    next
      case 2
      then have "cell_ok (length (u_data s1)) c" using ok d by (simp add: list_all_iff)
      then obtain r where "r \<in> set (u_data s1)" "data_at (u_data s1) c = Some r"
        using data_at_ok by blast
      then show ?thesis using 2 d assms(3) by auto
    qed
  qed
  then have "final_filter m (map fst m) (map Some ?res @ map (data_at (u_data s1)) match) = Inr []"
    by (rule final_filter_none)
  then show ?thesis using assms(1) c
    by (simp add: find_store_def find_map_def finish_def Let_def)
qed

text \<open>
  C8 (amended). On the empty store \<open>find\<close> returns an empty array for every query, a
  number or a string included. On a store with records it returns \<open>null\<close> for a number
  out of range, and for an identity string when the lookup in the index of the identity
  field gives no position and the linear scan finds no record; it returns an empty array
  for a predicate function that no record satisfies, and for a field-to-value map that no
  record matches when every position held in the index is the position of a record.
\<close>

theorem find_no_match:
  "(u_data s = [] \<longrightarrow> fst (find_store s q ign) = Inr (RMany [])) \<and>
   (u_data s \<noteq> [] \<longrightarrow>
      (n < 0 \<or> int (length (u_data s)) \<le> n \<longrightarrow> fst (find_store s (QNum n) ign) = Inr RNull) \<and>
      ((fst (getIndices s (idAttribute (u_data s ! 0)) (JStr (trim str))) = None \<or>
        fst (getIndices s (idAttribute (u_data s ! 0)) (JStr (trim str))) = Some []) \<and>
       (\<forall>r\<in>set (u_data s). \<not> id_matches str r) \<longrightarrow>
         fst (find_store s (QStr str) ign) = Inr RNull) \<and>
      ((\<forall>r\<in>set (u_data s). \<not> p r) \<longrightarrow> fst (find_store s (QFn p) ign) = Inr (RMany [])) \<and>
      (positions_in_range s \<and> (\<forall>r\<in>set (u_data s). \<not> keys_match m (map fst m) r) \<longrightarrow>
         fst (find_store s (QMap m) ign) = Inr (RMany [])))"
  using find_empty[of s q ign] find_num_out[of s n ign] find_str_none[of s str ign]
    find_fn_none[of s p ign] find_map_none[of s m ign]
  by blast


theorem find_no_match_witness:
  "fst (find_store (new_store [] True True) (QNum 0) None) = Inr (RMany []) \<and>
   u_data (reindex people_store) \<noteq> [] \<and>
   int (length (u_data (reindex people_store))) \<le> 7 \<and>
   fst (find_store (reindex people_store) (QNum 7) None) = Inr RNull \<and>
   fst (getIndices (reindex people_store) (idAttribute (u_data (reindex people_store) ! 0))
          (JStr (trim ''zz''))) = None \<and>
   list_all (\<lambda>r. \<not> id_matches ''zz'' r) (u_data (reindex people_store)) \<and>
   fst (find_store (reindex people_store) (QStr ''zz'') None) = Inr RNull \<and>
   list_all (\<lambda>r. \<not> getv r ''lname'' = JStr ''Smith'') (u_data (reindex people_store)) \<and>
   fst (find_store (reindex people_store) (QFn (\<lambda>r. getv r ''lname'' = JStr ''Smith'')) None) =
     Inr (RMany []) \<and>
   positions_in_range (reindex people_store) \<and>
   list_all (\<lambda>r. \<not> keys_match [(''lname'', JStr ''Smith'')] [''lname''] r)
     (u_data (reindex people_store)) \<and>
   fst (find_store (reindex people_store) (QMap [(''lname'', JStr ''Smith'')]) None) =
     Inr (RMany [])"
proof -
  let ?e = "new_store [] True True" and ?s = "reindex people_store"
  have e: "u_data ?e = []" by (simp add: new_store_def)
  have d: "u_data ?s = people"
    by (simp add: example_defs reindex_def clearIndices_def applyIndices_def)
  have idx: "u_index ?s =
     [(''lname'', [[JStr ''Doe'', JNum 0, JNum 1], [JStr ''Vaughn'', JNum 2]]),
      (''fname'', [[JStr ''John'', JNum 0], [JStr ''Jane'', JNum 1, JNum 2]])]"
    by (simp add: example_defs reindex_def clearIndices_def applyIndices_def)
  have ne: "u_data ?s \<noteq> []" and h_num: "int (length (u_data ?s)) \<le> 7"
    using d by (simp_all add: people_def)
  have h_look: "fst (getIndices ?s (idAttribute (u_data ?s ! 0)) (JStr (trim ''zz''))) = None"
    by (simp add: getIndices_def idx d people_def person_def)
  have h_id: "\<forall>r\<in>set (u_data ?s). \<not> id_matches ''zz'' r"
    by (simp add: d people_def person_def id_matches_def getv_def or_empty_def truthy_def
        js_toString_def trim_def is_space_def)
  have h_fn: "\<forall>r\<in>set (u_data ?s). \<not> getv r ''lname'' = JStr ''Smith''"
    by (simp add: d people_def person_def getv_def)
  have h_pos: "positions_in_range ?s"
    by (simp add: positions_in_range_def index_ok_def cell_ok_def idx d people_def)
  have h_map: "\<forall>r\<in>set (u_data ?s).
      \<not> keys_match [(''lname'', JStr ''Smith'')] (map fst [(''lname'', JStr ''Smith'')]) r"
    by (simp add: d people_def person_def keys_match_def qval_def getv_def)
  show ?thesis
    using find_no_match [of ?e "QNum 0" None]
      find_no_match [of ?s QAbsent None 7 "''zz''" "\<lambda>r. getv r ''lname'' = JStr ''Smith''"
        "[(''lname'', JStr ''Smith'')]"]
      e ne h_num h_look h_id h_fn h_pos h_map
    by (simp add: list_all_iff)
qed

text \<open>
  C8 as stated fails on the empty store: for a number and for an identity string \<open>find\<close>
  returns an empty array, not \<open>null\<close>.
\<close>

theorem find_on_empty_store_not_null:
  "u_data (new_store [] True True) = [] \<and>
   fst (find_store (new_store [] True True) (QNum 0) None) = Inr (RMany []) \<and>
   fst (find_store (new_store [] True True) (QStr ''a'') None) = Inr (RMany []) \<and>
   fst (find_store (new_store [] True True) (QNum 0) None) \<noteq> Inr RNull"
  by (simp add: new_store_def find_store_def)


end
